theory Spec2Isabelle
  imports Complex_Main
begin

section \<open>The video player component of \<open>src/video-player.tsx\<close>\<close>

text \<open>
  The component is a React function component around an \<open>expo-video\<close> player object.
  The embedding keeps one record for a mounted instance: the props, the player object,
  the \<open>useState\<close> cells, the \<open>useRef\<close> cells, and the list of calls the component has
  made on the player and on the parent's callbacks. Every handler and every effect body
  of the source is a function from that record to the updated record.

  JavaScript numbers are modelled as \<open>real\<close>: finite values with exact arithmetic.
  \<open>NaN\<close>, the infinities and rounding are outside the model, so a source division is
  meaningful here only where its divisor is not zero.
\<close>

subsection \<open>The player object (the playback adapter)\<close>

record player =
  player_currentTime :: real
  player_duration :: real
  player_playing :: bool
  player_muted :: bool
  player_volume :: real
  player_playbackRate :: real
  player_loop :: bool

text \<open>
  The engine behind the player object is not part of the repository. An assignment to a
  property of the player is modelled as setting the field, \<open>play()\<close> and \<open>pause()\<close> as
  setting \<open>playing\<close>; whatever else the engine does on its own is the event \<open>Engine\<close>
  below. Every call the component makes is also appended to a call list, which is what
  the statements about issued commands read.

  For an assignment to \<open>player.currentTime\<close> the call list records the statement that made
  it: the initial-position effect (lines 69 and 71) or the fallback of \<open>seekToPosition\<close>
  (line 209).
\<close>

datatype site = InitialPosition | SeekFallback

datatype action =
    Play
  | Pause
  | SeekBy real
  | SetCurrentTime site real
  | SetMuted bool
  | SetVolume real
  | SetPlaybackRate real
  | SetLoop bool
  | OnVideoEnd
  | OnProgress real real

text \<open>
  \<open>player.seekBy\<close> belongs to the engine and may throw. It is a parameter of the model:
  \<open>Inr p'\<close> when the call returns and leaves the player as \<open>p'\<close>, \<open>Inl p'\<close> when it
  throws and leaves the player as \<open>p'\<close>.
\<close>

type_synonym seekBy_impl = "real \<Rightarrow> player \<Rightarrow> player + player"

datatype status = Idle | Loading | ReadyToPlay | Error

subsection \<open>Props and component state\<close>

text \<open>
  \<open>onVideoEnd\<close> and \<open>onProgress\<close> say whether the parent passed the callback. The
  defaults of the destructuring (\<open>isFullscreen = false\<close>, \<open>autoPlay = false\<close>,
  \<open>startPosition = 0\<close>) are the values a caller of the model supplies for an absent prop.
\<close>

record props =
  isFullscreen :: bool
  onVideoEnd :: bool
  onProgress :: bool
  autoPlay :: bool
  startPosition :: real

text \<open>
  \<open>controlsTimeout\<close> is true while the timeout held by \<open>controlsTimeoutRef\<close> is pending.
  \<open>SCREEN_WIDTH\<close> is the window width read once when the module is loaded (line 23);
  \<open>window_width\<close> is what \<open>Dimensions.get('window')\<close> returns now. The three \<open>deps\<close>
  fields hold the dependency values React saw at the last run of the three effects that
  act on the state; the player object keeps its identity for the life of the mount, so
  it is left out of them. \<open>pan_isFullscreen\<close> is the value of \<open>isFullscreen\<close> at the first
  render, which the pan responder's handlers keep (see below).
\<close>

record vp =
  props :: props
  player :: "player option"
  isPlaying :: bool
  currentTime :: real
  duration :: real
  showControls :: bool
  playbackRate :: real
  showSettings :: bool
  isLoading :: bool
  isDragging :: bool
  controlsTimeout :: bool
  hasSetInitialPosition :: bool
  SCREEN_WIDTH :: real
  window_width :: real
  calls :: "action list"
  deps_initialPosition :: "real \<times> real \<times> bool"
  deps_autoPlay :: "bool \<times> bool"
  deps_controls :: bool
  pan_isFullscreen :: bool

definition progress :: "vp \<Rightarrow> real" where
  "progress s = (if duration s > 0 then currentTime s / duration s else 0)"

subsection \<open>Effects\<close>

text \<open>Lines 66-75: set the initial position only once when the video is ready.\<close>

definition initialPosition_effect :: "vp \<Rightarrow> vp" where
  "initialPosition_effect s =
     (case player s of
        None \<Rightarrow> s
      | Some pl \<Rightarrow>
          if \<not> hasSetInitialPosition s \<and> duration s > 0 \<and> \<not> isLoading s then
            (if startPosition (props s) > 0 then
               s\<lparr>player := Some (pl\<lparr>player_currentTime := startPosition (props s)\<rparr>),
                 calls := calls s @ [SetCurrentTime InitialPosition (startPosition (props s))],
                 hasSetInitialPosition := True\<rparr>
             else
               s\<lparr>player := Some (pl\<lparr>player_currentTime := 0\<rparr>),
                 calls := calls s @ [SetCurrentTime InitialPosition 0],
                 hasSetInitialPosition := True\<rparr>)
          else s)"

text \<open>Lines 78-83: auto-play.\<close>

definition autoPlay_effect :: "vp \<Rightarrow> vp" where
  "autoPlay_effect s =
     (case player s of
        None \<Rightarrow> s
      | Some pl \<Rightarrow>
          if autoPlay (props s) \<and> \<not> isLoading s then
            s\<lparr>player := Some (pl\<lparr>player_playing := True\<rparr>),
              calls := calls s @ [Play],
              isPlaying := True\<rparr>
          else s)"

text \<open>
  Lines 136-148. The callback closes over \<open>isPlaying\<close> of the render that created it,
  which is the first argument.
\<close>

definition resetControlsTimeout :: "bool \<Rightarrow> vp \<Rightarrow> vp" where
  "resetControlsTimeout isPlaying_c s =
     (let s1 = (if controlsTimeout s then s\<lparr>controlsTimeout := False\<rparr> else s);
          s2 = s1\<lparr>showControls := True\<rparr>
      in if isPlaying_c then s2\<lparr>controlsTimeout := True\<rparr> else s2)"

text \<open>
  Lines 150-160, run when \<open>isPlaying\<close> changed: the cleanup of the previous run clears
  the timeout, then the body runs with the new \<open>isPlaying\<close>.
\<close>

definition controls_effect :: "bool \<Rightarrow> vp \<Rightarrow> vp" where
  "controls_effect isPlaying_c s =
     (let s1 = (if controlsTimeout s then s\<lparr>controlsTimeout := False\<rparr> else s)
      in if isPlaying_c then resetControlsTimeout isPlaying_c s1 else s1)"

subsection \<open>The reconciliation tick and the status listener\<close>

text \<open>Lines 89-105, the body of the 500 ms interval.\<close>

definition updateProgress :: "vp \<Rightarrow> vp" where
  "updateProgress s =
     (case player s of
        None \<Rightarrow> s
      | Some pl \<Rightarrow>
          (let s1 = s\<lparr>currentTime := player_currentTime pl,
                      duration := player_duration pl,
                      isPlaying := player_playing pl\<rparr>;
               s2 = (if player_currentTime pl \<ge> player_duration pl \<and> player_duration pl > 0 then
                       (if onVideoEnd (props s) then s1\<lparr>calls := calls s1 @ [OnVideoEnd]\<rparr> else s1)
                     else s1)
           in if onProgress (props s) \<and> player_duration pl > 0 then
                s2\<lparr>calls := calls s2 @
                  [OnProgress (player_currentTime pl / player_duration pl) (player_currentTime pl)]\<rparr>
              else s2))"

text \<open>Lines 121-128, the \<open>statusChange\<close> listener.\<close>

definition statusChange :: "status \<Rightarrow> vp \<Rightarrow> vp" where
  "statusChange st s =
     (case player s of
        None \<Rightarrow> s
      | Some pl \<Rightarrow>
          (let s1 = s\<lparr>isLoading := (st = Loading)\<rparr>
           in if st = ReadyToPlay then s1\<lparr>duration := player_duration pl, isLoading := False\<rparr>
              else s1))"

subsection \<open>Transport controls\<close>

definition togglePlayPause :: "vp \<Rightarrow> vp" where
  "togglePlayPause s =
     (case player s of
        None \<Rightarrow> s
      | Some pl \<Rightarrow>
          resetControlsTimeout (isPlaying s)
            (if player_playing pl then
               s\<lparr>player := Some (pl\<lparr>player_playing := False\<rparr>),
                 calls := calls s @ [Pause],
                 isPlaying := False\<rparr>
             else
               s\<lparr>player := Some (pl\<lparr>player_playing := True\<rparr>),
                 calls := calls s @ [Play],
                 isPlaying := True\<rparr>))"

definition toggleMute :: "vp \<Rightarrow> vp" where
  "toggleMute s =
     (case player s of
        None \<Rightarrow> s
      | Some pl \<Rightarrow>
          s\<lparr>player := Some (pl\<lparr>player_muted := \<not> player_muted pl\<rparr>),
            calls := calls s @ [SetMuted (\<not> player_muted pl)]\<rparr>)"

definition changePlaybackRate :: "real \<Rightarrow> vp \<Rightarrow> vp" where
  "changePlaybackRate rate s =
     (case player s of
        None \<Rightarrow> s
      | Some pl \<Rightarrow>
          s\<lparr>player := Some (pl\<lparr>player_playbackRate := rate\<rparr>),
            calls := calls s @ [SetPlaybackRate rate],
            playbackRate := rate,
            showSettings := False\<rparr>)"

text \<open>The rates the settings menu lists (line 425); each item calls \<open>changePlaybackRate\<close>.\<close>

definition playbackRates :: "real list" where
  "playbackRates = [1/2, 3/4, 1, 5/4, 3/2, 2]"

subsection \<open>Seeking\<close>

text \<open>
  Lines 187-216. \<open>duration_c\<close> is the \<open>duration\<close> the callback closed over. The call
  of \<open>seekBy\<close> is recorded whether it returns or throws; the \<open>catch\<close> block is the
  \<open>Inl\<close> branch.
\<close>

definition seekToPosition :: "seekBy_impl \<Rightarrow> real \<Rightarrow> real \<Rightarrow> vp \<Rightarrow> vp" where
  "seekToPosition seekBy duration_c position s =
     (case player s of
        None \<Rightarrow> s
      | Some pl \<Rightarrow>
          if duration_c \<le> 0 then s
          else
            (let clampedPosition = max 0 (min position 1);
                 targetTime = clampedPosition * duration_c;
                 delta = targetTime - player_currentTime pl
             in if \<bar>delta\<bar> < 1/10 then s\<lparr>currentTime := targetTime\<rparr>
                else
                  (case seekBy delta pl of
                     Inr pl' \<Rightarrow>
                       s\<lparr>player := Some pl',
                         calls := calls s @ [SeekBy delta],
                         currentTime := targetTime\<rparr>
                   | Inl pl' \<Rightarrow>
                       s\<lparr>player := Some (pl'\<lparr>player_currentTime := targetTime\<rparr>),
                         calls := calls s @ [SeekBy delta, SetCurrentTime SeekFallback targetTime],
                         currentTime := targetTime\<rparr>)))"

text \<open>
  Lines 219-232 and 235-248. \<open>isFullscreen_c\<close>, \<open>duration_c\<close> and \<open>isPlaying_c\<close> are the
  values the callbacks closed over. The division by \<open>progressBarWidth\<close> is the one
  division of the source that no guard protects: for a window exactly 32 wide JavaScript
  yields \<open>NaN\<close>, which the model does not have, so statements about the quotient assume
  a bar width that is not 0.
\<close>

definition handleProgressBarTouch :: "seekBy_impl \<Rightarrow> bool \<Rightarrow> real \<Rightarrow> real \<Rightarrow> vp \<Rightarrow> vp" where
  "handleProgressBarTouch seekBy isFullscreen_c duration_c touchX s =
     (if player s = None \<or> duration_c \<le> 0 then s
      else
        (let currentWidth = window_width s;
             progressBarWidth = (if isFullscreen_c then currentWidth else SCREEN_WIDTH s) - 32;
             clampedTouchX = max 0 (min touchX progressBarWidth);
             newProgress = clampedTouchX / progressBarWidth
         in seekToPosition seekBy duration_c newProgress s))"

definition handleProgressBarTap :: "seekBy_impl \<Rightarrow> bool \<Rightarrow> real \<Rightarrow> bool \<Rightarrow> real \<Rightarrow> vp \<Rightarrow> vp" where
  "handleProgressBarTap seekBy isFullscreen_c duration_c isPlaying_c touchX s =
     (if player s = None \<or> duration_c \<le> 0 then s
      else
        (let currentWidth = window_width s;
             progressBarWidth = (if isFullscreen_c then currentWidth else SCREEN_WIDTH s) - 32;
             clampedTouchX = max 0 (min touchX progressBarWidth);
             newProgress = clampedTouchX / progressBarWidth
         in resetControlsTimeout isPlaying_c (seekToPosition seekBy duration_c newProgress s)))"

text \<open>Lines 251-271, the three handlers of the pan responder.\<close>

definition onPanResponderGrant :: "seekBy_impl \<Rightarrow> bool \<Rightarrow> real \<Rightarrow> real \<Rightarrow> vp \<Rightarrow> vp" where
  "onPanResponderGrant seekBy isFullscreen_c duration_c touchX s =
     (let s1 = s\<lparr>isDragging := True\<rparr>;
          s2 = (if controlsTimeout s1 then s1\<lparr>controlsTimeout := False\<rparr> else s1)
      in handleProgressBarTouch seekBy isFullscreen_c duration_c touchX s2)"

definition onPanResponderMove :: "seekBy_impl \<Rightarrow> bool \<Rightarrow> real \<Rightarrow> real \<Rightarrow> vp \<Rightarrow> vp" where
  "onPanResponderMove seekBy isFullscreen_c duration_c touchX s =
     handleProgressBarTouch seekBy isFullscreen_c duration_c touchX s"

definition onPanResponderRelease :: "seekBy_impl \<Rightarrow> bool \<Rightarrow> real \<Rightarrow> bool \<Rightarrow> real \<Rightarrow> vp \<Rightarrow> vp" where
  "onPanResponderRelease seekBy isFullscreen_c duration_c isPlaying_c touchX s =
     resetControlsTimeout isPlaying_c
       ((handleProgressBarTouch seekBy isFullscreen_c duration_c touchX s)\<lparr>isDragging := False\<rparr>)"

text \<open>Lines 279-288.\<close>

definition handleVideoPress :: "vp \<Rightarrow> vp" where
  "handleVideoPress s =
     (if showControls s then
        (let s1 = s\<lparr>showControls := False\<rparr>
         in if controlsTimeout s1 then s1\<lparr>controlsTimeout := False\<rparr> else s1)
      else resetControlsTimeout (isPlaying s) s)"

subsection \<open>Mounting, events and rendering\<close>

text \<open>Lines 44-49: the initialisation callback of \<open>useVideoPlayer\<close>.\<close>

definition initPlayer :: "player \<Rightarrow> player" where
  "initPlayer pl = pl\<lparr>player_loop := False, player_muted := False,
                  player_volume := 1, player_playbackRate := 1\<rparr>"

text \<open>
  One pass of the effects after a render (lines 66-75, 78-83 and 150-160), in the order
  of the source. An effect runs when one of its dependencies differs from the value of
  the previous run. The effect of lines 150-160 sees \<open>isPlaying\<close> of the render, not a
  value another effect of the same pass has set since. The effects of lines 86-115 and
  118-133 only install the interval and the listener, whose callbacks are the events
  \<open>Tick\<close> and \<open>StatusChange\<close> below.
\<close>

definition effects :: "vp \<Rightarrow> vp" where
  "effects s =
     (let d1 = (startPosition (props s), duration s, isLoading s);
          d2 = (autoPlay (props s), isLoading s);
          d5 = isPlaying s;
          s1 = (if deps_initialPosition s \<noteq> d1 then initialPosition_effect s else s);
          s2 = (if deps_autoPlay s \<noteq> d2 then autoPlay_effect s1 else s1);
          s3 = (if deps_controls s \<noteq> d5 then controls_effect d5 s2 else s2)
      in s3\<lparr>deps_initialPosition := d1, deps_autoPlay := d2, deps_controls := d5\<rparr>)"

text \<open>
  A state update made inside an effect (\<open>setIsPlaying(true)\<close> of the auto-play effect)
  causes one more render and one more pass; after it nothing changes any more
  (\<open>effects_stable\<close> below).
\<close>

definition commit :: "vp \<Rightarrow> vp" where
  "commit s = effects (effects s)"

text \<open>
  Lines 51-61: the first render. On mount every effect runs once; the dependency fields
  start as the values of that render.
\<close>

definition initial :: "props \<Rightarrow> player option \<Rightarrow> real \<Rightarrow> vp" where
  "initial pr po width =
     \<lparr>props = pr,
      player = map_option initPlayer po,
      isPlaying = False, currentTime = 0, duration = 0, showControls = True,
      playbackRate = 1, showSettings = False, isLoading = True, isDragging = False,
      controlsTimeout = False, hasSetInitialPosition = False,
      SCREEN_WIDTH = width, window_width = width,
      calls = (case po of None \<Rightarrow> []
               | Some _ \<Rightarrow> [SetLoop False, SetMuted False, SetVolume 1, SetPlaybackRate 1]),
      deps_initialPosition = (startPosition pr, 0, True),
      deps_autoPlay = (autoPlay pr, True),
      deps_controls = False,
      pan_isFullscreen = isFullscreen pr\<rparr>"

definition mount :: "props \<Rightarrow> player option \<Rightarrow> real \<Rightarrow> vp" where
  "mount pr po width =
     (let s0 = initial pr po width;
          s1 = initialPosition_effect s0;
          s2 = autoPlay_effect s1;
          s3 = (if isPlaying s0 then resetControlsTimeout (isPlaying s0) s2 else s2)
      in commit s3)"

text \<open>
  What can happen to a mounted component. \<open>Engine p\<close> is the engine changing the
  player's properties on its own (time passes, the media loads, playback ends).
\<close>

datatype event =
    Tick
  | StatusChange status
  | Engine player
  | SetProps props
  | Resize real
  | PressPlayPause
  | PressMute
  | PressSettings
  | SelectRate real
  | PressVideo
  | TapProgressBar real
  | PanGrant real
  | PanMove real
  | PanRelease real
  | ControlsTimeoutFired

text \<open>
  The handler of each event. A callback made by \<open>useCallback\<close> in the current render
  closes over the current state. The pan responder is different: line 251 builds it
  inside \<open>useRef(...)\<close>, which keeps the object of the first render, so its three
  handlers call the \<open>handleProgressBarTouch\<close> and \<open>resetControlsTimeout\<close> of the first
  render, which closed over \<open>duration = 0\<close>, \<open>isPlaying = false\<close> and the first
  \<open>isFullscreen\<close>. The interval and the listener exist only when there is a player.
\<close>

fun handle :: "seekBy_impl \<Rightarrow> event \<Rightarrow> vp \<Rightarrow> vp" where
  "handle seekBy Tick s = updateProgress s"
| "handle seekBy (StatusChange st) s = statusChange st s"
| "handle seekBy (Engine p) s = (case player s of None \<Rightarrow> s | Some _ \<Rightarrow> s\<lparr>player := Some p\<rparr>)"
| "handle seekBy (SetProps pr) s = s\<lparr>props := pr\<rparr>"
| "handle seekBy (Resize w) s = s\<lparr>window_width := w\<rparr>"
| "handle seekBy PressPlayPause s = togglePlayPause s"
| "handle seekBy PressMute s = toggleMute s"
| "handle seekBy PressSettings s = s\<lparr>showSettings := \<not> showSettings s\<rparr>"
| "handle seekBy (SelectRate rate) s =
     (if rate \<in> set playbackRates then changePlaybackRate rate s else s)"
| "handle seekBy PressVideo s = handleVideoPress s"
| "handle seekBy (TapProgressBar x) s =
     handleProgressBarTap seekBy (isFullscreen (props s)) (duration s) (isPlaying s) x s"
| "handle seekBy (PanGrant x) s = onPanResponderGrant seekBy (pan_isFullscreen s) 0 x s"
| "handle seekBy (PanMove x) s = onPanResponderMove seekBy (pan_isFullscreen s) 0 x s"
| "handle seekBy (PanRelease x) s = onPanResponderRelease seekBy (pan_isFullscreen s) 0 False x s"
| "handle seekBy ControlsTimeoutFired s =
     (if controlsTimeout s then s\<lparr>showControls := False, controlsTimeout := False\<rparr> else s)"

definition step :: "seekBy_impl \<Rightarrow> event \<Rightarrow> vp \<Rightarrow> vp" where
  "step seekBy ev s = commit (handle seekBy ev s)"

fun run :: "seekBy_impl \<Rightarrow> event list \<Rightarrow> vp \<Rightarrow> vp" where
  "run seekBy [] s = s"
| "run seekBy (ev # evs) s = run seekBy evs (step seekBy ev s)"

subsection \<open>Reading the call list\<close>

fun initialWrite :: "action \<Rightarrow> bool" where
  "initialWrite (SetCurrentTime InitialPosition t) = True"
| "initialWrite _ = False"

definition startOffset :: "props \<Rightarrow> real" where
  "startOffset pr = (if startPosition pr > 0 then startPosition pr else 0)"

definition progressCall :: "action \<Rightarrow> bool" where
  "progressCall a = (case a of OnProgress p t \<Rightarrow> True | _ \<Rightarrow> False)"

definition videoEndCall :: "action \<Rightarrow> bool" where
  "videoEndCall a = (a = OnVideoEnd)"

definition playCall :: "action \<Rightarrow> bool" where
  "playCall a = (a = Play)"

subsection \<open>Notions used in the proofs\<close>

text \<open>
  \<open>ready\<close> is the guard of the initial-position effect without the latch;
  \<open>current_deps\<close> are the dependency values of that effect in the current state;
  a state is \<open>settled\<close> when the effect has seen the current values, has run if the
  guard holds, and has written once exactly if the latch is set.
\<close>

definition ready :: "vp \<Rightarrow> bool" where
  "ready s = (player s \<noteq> None \<and> duration s > 0 \<and> \<not> isLoading s)"

definition current_deps :: "vp \<Rightarrow> real \<times> real \<times> bool" where
  "current_deps s = (startPosition (props s), duration s, isLoading s)"

definition settled :: "vp \<Rightarrow> bool" where
  "settled s = (deps_initialPosition s = current_deps s \<and> (\<not> ready s \<or> hasSetInitialPosition s) \<and>
     length (filter initialWrite (calls s)) = (if hasSetInitialPosition s then 1 else 0))"

subsection \<open>A concrete session\<close>

text \<open>
  A medium of 120 seconds, played from second 30 with auto-play, in a window 400 wide.
  \<open>seekBy_returns\<close> is an engine whose relative seek works, \<open>seekBy_throws\<close> one whose
  relative seek always throws.
\<close>

definition demo_props :: props where
  "demo_props = \<lparr>isFullscreen = False, onVideoEnd = True, onProgress = True,
                  autoPlay = True, startPosition = 30\<rparr>"

definition demo_player :: "real \<Rightarrow> real \<Rightarrow> bool \<Rightarrow> player" where
  "demo_player t d p = \<lparr>player_currentTime = t, player_duration = d, player_playing = p,
     player_muted = False, player_volume = 1, player_playbackRate = 1, player_loop = False\<rparr>"

definition seekBy_returns :: seekBy_impl where
  "seekBy_returns delta pl = Inr (pl\<lparr>player_currentTime := player_currentTime pl + delta\<rparr>)"

definition seekBy_throws :: seekBy_impl where
  "seekBy_throws delta pl = Inl pl"

definition demo_mount :: vp where
  "demo_mount = mount demo_props (Some (demo_player 0 0 False)) 400"

definition demo_loading :: "event list" where
  "demo_loading = [Engine (demo_player 0 120 False), StatusChange ReadyToPlay]"

definition demo_ready :: vp where
  "demo_ready = run seekBy_returns demo_loading demo_mount"

definition demo_events :: "event list" where
  "demo_events = demo_loading @ [Tick, Tick]"

text \<open>
  Three continuations of the session: the engine reaches the end of the medium; the
  window becomes 800 wide while the player is not fullscreen; the engine reports
  loading again and then ready again.
\<close>

definition demo_ended :: vp where
  "demo_ended = run seekBy_returns [Engine (demo_player 120 120 False)] demo_ready"

definition demo_rotated :: vp where
  "demo_rotated = run seekBy_returns [Resize 800] demo_ready"

definition demo_rebuffer :: "event list" where
  "demo_rebuffer = demo_loading @ [StatusChange Loading, StatusChange ReadyToPlay]"

section \<open>Frame lemmas\<close>

lemma autoPlay_effect_frame:
  "hasSetInitialPosition (autoPlay_effect s) = hasSetInitialPosition s"
  "filter initialWrite (calls (autoPlay_effect s)) = filter initialWrite (calls s)"
  "props (autoPlay_effect s) = props s"
  "duration (autoPlay_effect s) = duration s"
  "isLoading (autoPlay_effect s) = isLoading s"
  "(player (autoPlay_effect s) = None) = (player s = None)"
  by (simp_all add: autoPlay_effect_def split: option.splits)

lemma controls_effect_frame:
  "hasSetInitialPosition (controls_effect b s) = hasSetInitialPosition s"
  "calls (controls_effect b s) = calls s"
  "props (controls_effect b s) = props s"
  "duration (controls_effect b s) = duration s"
  "isLoading (controls_effect b s) = isLoading s"
  "player (controls_effect b s) = player s"
  by (simp_all add: controls_effect_def resetControlsTimeout_def Let_def)

lemma initialPosition_effect_frame:
  "props (initialPosition_effect s) = props s"
  "duration (initialPosition_effect s) = duration s"
  "isLoading (initialPosition_effect s) = isLoading s"
  "(player (initialPosition_effect s) = None) = (player s = None)"
  by (simp_all add: initialPosition_effect_def split: option.splits)

lemma initialPosition_effect_fires:
  "ready s \<Longrightarrow> \<not> hasSetInitialPosition s \<Longrightarrow>
     hasSetInitialPosition (initialPosition_effect s) \<and>
     calls (initialPosition_effect s) = calls s @ [SetCurrentTime InitialPosition (startOffset (props s))]"
  by (auto simp add: initialPosition_effect_def ready_def startOffset_def split: option.splits)

lemma initialPosition_effect_idle:
  "\<not> ready s \<or> hasSetInitialPosition s \<Longrightarrow> initialPosition_effect s = s"
  by (auto simp add: initialPosition_effect_def ready_def split: option.splits)


lemma effects_frame:
  "props (effects s) = props s"
  "duration (effects s) = duration s"
  "isLoading (effects s) = isLoading s"
  "(player (effects s) = None) = (player s = None)"
  "deps_initialPosition (effects s) = current_deps s"
  unfolding effects_def Let_def current_deps_def
  by (simp_all add: autoPlay_effect_frame controls_effect_frame initialPosition_effect_frame)

lemma effects_fires:
  assumes "ready s" "\<not> hasSetInitialPosition s" "deps_initialPosition s \<noteq> current_deps s"
  shows "hasSetInitialPosition (effects s)"
    and "filter initialWrite (calls (effects s)) =
         filter initialWrite (calls s) @ [SetCurrentTime InitialPosition (startOffset (props s))]"
  using assms initialPosition_effect_fires[of s]
  unfolding effects_def Let_def current_deps_def
  by (simp_all add: autoPlay_effect_frame controls_effect_frame)

lemma effects_idle:
  assumes "\<not> ready s \<or> hasSetInitialPosition s \<or> deps_initialPosition s = current_deps s"
  shows "hasSetInitialPosition (effects s) = hasSetInitialPosition s"
    and "filter initialWrite (calls (effects s)) = filter initialWrite (calls s)"
proof -
  have "initialPosition_effect s = s \<or> deps_initialPosition s = current_deps s"
    using assms initialPosition_effect_idle[of s] by blast
  then show "hasSetInitialPosition (effects s) = hasSetInitialPosition s"
    and "filter initialWrite (calls (effects s)) = filter initialWrite (calls s)"
    unfolding effects_def Let_def current_deps_def
    by (auto simp add: autoPlay_effect_frame controls_effect_frame)
qed


lemma resetControlsTimeout_frame:
  "hasSetInitialPosition (resetControlsTimeout b s) = hasSetInitialPosition s"
  "calls (resetControlsTimeout b s) = calls s"
  "deps_initialPosition (resetControlsTimeout b s) = deps_initialPosition s"
  "player (resetControlsTimeout b s) = player s"
  by (simp_all add: resetControlsTimeout_def Let_def)

lemma seekToPosition_frame:
  "hasSetInitialPosition (seekToPosition seekBy d p s) = hasSetInitialPosition s"
  "filter initialWrite (calls (seekToPosition seekBy d p s)) = filter initialWrite (calls s)"
  "deps_initialPosition (seekToPosition seekBy d p s) = deps_initialPosition s"
  "(player (seekToPosition seekBy d p s) = None) = (player s = None)"
  by (simp_all add: seekToPosition_def Let_def split: option.splits sum.splits)

lemma handleProgressBarTouch_frame:
  "hasSetInitialPosition (handleProgressBarTouch seekBy fs d x s) = hasSetInitialPosition s"
  "filter initialWrite (calls (handleProgressBarTouch seekBy fs d x s)) = filter initialWrite (calls s)"
  "deps_initialPosition (handleProgressBarTouch seekBy fs d x s) = deps_initialPosition s"
  "(player (handleProgressBarTouch seekBy fs d x s) = None) = (player s = None)"
  by (simp_all add: handleProgressBarTouch_def Let_def seekToPosition_frame)

lemma handleProgressBarTap_frame:
  "hasSetInitialPosition (handleProgressBarTap seekBy fs d b x s) = hasSetInitialPosition s"
  "filter initialWrite (calls (handleProgressBarTap seekBy fs d b x s)) = filter initialWrite (calls s)"
  "deps_initialPosition (handleProgressBarTap seekBy fs d b x s) = deps_initialPosition s"
  "(player (handleProgressBarTap seekBy fs d b x s) = None) = (player s = None)"
  by (simp_all add: handleProgressBarTap_def Let_def seekToPosition_frame resetControlsTimeout_frame)

lemma pan_frame:
  "hasSetInitialPosition (onPanResponderGrant seekBy fs d x s) = hasSetInitialPosition s"
  "filter initialWrite (calls (onPanResponderGrant seekBy fs d x s)) = filter initialWrite (calls s)"
  "deps_initialPosition (onPanResponderGrant seekBy fs d x s) = deps_initialPosition s"
  "(player (onPanResponderGrant seekBy fs d x s) = None) = (player s = None)"
  "hasSetInitialPosition (onPanResponderMove seekBy fs d x s) = hasSetInitialPosition s"
  "filter initialWrite (calls (onPanResponderMove seekBy fs d x s)) = filter initialWrite (calls s)"
  "deps_initialPosition (onPanResponderMove seekBy fs d x s) = deps_initialPosition s"
  "(player (onPanResponderMove seekBy fs d x s) = None) = (player s = None)"
  "hasSetInitialPosition (onPanResponderRelease seekBy fs d b x s) = hasSetInitialPosition s"
  "filter initialWrite (calls (onPanResponderRelease seekBy fs d b x s)) = filter initialWrite (calls s)"
  "deps_initialPosition (onPanResponderRelease seekBy fs d b x s) = deps_initialPosition s"
  "(player (onPanResponderRelease seekBy fs d b x s) = None) = (player s = None)"
  by (simp_all add: onPanResponderGrant_def onPanResponderMove_def onPanResponderRelease_def Let_def
      handleProgressBarTouch_frame resetControlsTimeout_frame)

lemma updateProgress_frame:
  "hasSetInitialPosition (updateProgress s) = hasSetInitialPosition s"
  "filter initialWrite (calls (updateProgress s)) = filter initialWrite (calls s)"
  "deps_initialPosition (updateProgress s) = deps_initialPosition s"
  "(player (updateProgress s) = None) = (player s = None)"
  by (simp_all add: updateProgress_def Let_def split: option.splits)

lemma statusChange_frame:
  "hasSetInitialPosition (statusChange st s) = hasSetInitialPosition s"
  "calls (statusChange st s) = calls s"
  "deps_initialPosition (statusChange st s) = deps_initialPosition s"
  "player (statusChange st s) = player s"
  by (simp_all add: statusChange_def Let_def split: option.splits)

lemma buttons_frame:
  "hasSetInitialPosition (togglePlayPause s) = hasSetInitialPosition s"
  "filter initialWrite (calls (togglePlayPause s)) = filter initialWrite (calls s)"
  "deps_initialPosition (togglePlayPause s) = deps_initialPosition s"
  "(player (togglePlayPause s) = None) = (player s = None)"
  "hasSetInitialPosition (toggleMute s) = hasSetInitialPosition s"
  "filter initialWrite (calls (toggleMute s)) = filter initialWrite (calls s)"
  "deps_initialPosition (toggleMute s) = deps_initialPosition s"
  "(player (toggleMute s) = None) = (player s = None)"
  "hasSetInitialPosition (changePlaybackRate r s) = hasSetInitialPosition s"
  "filter initialWrite (calls (changePlaybackRate r s)) = filter initialWrite (calls s)"
  "deps_initialPosition (changePlaybackRate r s) = deps_initialPosition s"
  "(player (changePlaybackRate r s) = None) = (player s = None)"
  "hasSetInitialPosition (handleVideoPress s) = hasSetInitialPosition s"
  "calls (handleVideoPress s) = calls s"
  "deps_initialPosition (handleVideoPress s) = deps_initialPosition s"
  "player (handleVideoPress s) = player s"
  by (simp_all add: togglePlayPause_def toggleMute_def changePlaybackRate_def handleVideoPress_def
      resetControlsTimeout_frame Let_def split: option.splits)

lemma handle_frame:
  "hasSetInitialPosition (handle seekBy ev s) = hasSetInitialPosition s"
  "filter initialWrite (calls (handle seekBy ev s)) = filter initialWrite (calls s)"
  "deps_initialPosition (handle seekBy ev s) = deps_initialPosition s"
  "(player (handle seekBy ev s) = None) = (player s = None)"
  by (cases ev; simp add: updateProgress_frame statusChange_frame buttons_frame pan_frame
      handleProgressBarTap_frame split: option.splits)+


lemma effects_current_deps: "current_deps (effects s) = current_deps s"
  by (simp add: current_deps_def effects_frame)

lemma effects_ready: "ready (effects s) = ready s"
  by (simp add: ready_def effects_frame)

lemma commit_settled:
  assumes "hasSetInitialPosition h"
  shows "hasSetInitialPosition (commit h)"
    and "filter initialWrite (calls (commit h)) = filter initialWrite (calls h)"
    and "deps_initialPosition (commit h) = current_deps (commit h)"
proof -
  have 1: "hasSetInitialPosition (effects h)"
    using assms effects_idle(1)[of h] by simp
  show "hasSetInitialPosition (commit h)"
    using 1 effects_idle(1)[of "effects h"] by (simp add: commit_def)
  show "filter initialWrite (calls (commit h)) = filter initialWrite (calls h)"
    using assms 1 effects_idle(2)[of h] effects_idle(2)[of "effects h"] by (simp add: commit_def)
  show "deps_initialPosition (commit h) = current_deps (commit h)"
    by (simp add: commit_def effects_frame effects_current_deps)
qed

lemma commit_fires:
  assumes "\<not> hasSetInitialPosition h" "ready h" "deps_initialPosition h \<noteq> current_deps h"
  shows "hasSetInitialPosition (commit h)"
    and "filter initialWrite (calls (commit h)) =
         filter initialWrite (calls h) @ [SetCurrentTime InitialPosition (startOffset (props h))]"
proof -
  have 1: "hasSetInitialPosition (effects h)"
    using assms effects_fires(1)[of h] by simp
  show "hasSetInitialPosition (commit h)"
    using 1 effects_idle(1)[of "effects h"] by (simp add: commit_def)
  show "filter initialWrite (calls (commit h)) =
         filter initialWrite (calls h) @ [SetCurrentTime InitialPosition (startOffset (props h))]"
    using assms 1 effects_fires(2)[of h] effects_idle(2)[of "effects h"] by (simp add: commit_def)
qed

lemma commit_waits:
  assumes "\<not> hasSetInitialPosition h" "\<not> ready h"
  shows "\<not> hasSetInitialPosition (commit h)"
    and "filter initialWrite (calls (commit h)) = filter initialWrite (calls h)"
proof -
  have 1: "\<not> hasSetInitialPosition (effects h)"
    using assms effects_idle(1)[of h] by simp
  have 2: "\<not> ready (effects h)"
    using assms by (simp add: effects_ready)
  show "\<not> hasSetInitialPosition (commit h)"
    using 1 2 effects_idle(1)[of "effects h"] by (simp add: commit_def)
  show "filter initialWrite (calls (commit h)) = filter initialWrite (calls h)"
    using assms 2 effects_idle(2)[of h] effects_idle(2)[of "effects h"] by (simp add: commit_def)
qed

lemma commit_frame:
  "props (commit s) = props s"
  "duration (commit s) = duration s"
  "isLoading (commit s) = isLoading s"
  "ready (commit s) = ready s"
  "deps_initialPosition (commit s) = current_deps (commit s)"
  by (simp_all add: commit_def effects_frame effects_ready effects_current_deps)

lemma ready_changed:
  assumes "\<not> ready s" "ready h" "(player h = None) = (player s = None)"
  shows "current_deps h \<noteq> current_deps s"
  using assms by (auto simp add: ready_def current_deps_def)

lemma step_cases:
  assumes "settled s"
  shows "settled (step seekBy ev s)"
    and "hasSetInitialPosition s \<Longrightarrow> hasSetInitialPosition (step seekBy ev s) \<and>
           filter initialWrite (calls (step seekBy ev s)) = filter initialWrite (calls s)"
    and "\<not> hasSetInitialPosition s \<Longrightarrow> hasSetInitialPosition (step seekBy ev s) \<Longrightarrow>
           ready (step seekBy ev s) \<and>
           filter initialWrite (calls (step seekBy ev s)) =
             [SetCurrentTime InitialPosition (startOffset (props (step seekBy ev s)))]"
proof -
  let ?h = "handle seekBy ev s"
  have hl: "hasSetInitialPosition ?h = hasSetInitialPosition s"
    and hc: "filter initialWrite (calls ?h) = filter initialWrite (calls s)"
    and hd: "deps_initialPosition ?h = current_deps s"
    and hp: "(player ?h = None) = (player s = None)"
    using assms by (simp_all add: handle_frame settled_def)
  consider (set) "hasSetInitialPosition s"
    | (fire) "\<not> hasSetInitialPosition s" "ready ?h"
    | (wait) "\<not> hasSetInitialPosition s" "\<not> ready ?h" by blast
  then have "settled (step seekBy ev s) \<and>
     (hasSetInitialPosition s \<longrightarrow> hasSetInitialPosition (step seekBy ev s) \<and>
           filter initialWrite (calls (step seekBy ev s)) = filter initialWrite (calls s)) \<and>
     (\<not> hasSetInitialPosition s \<longrightarrow> hasSetInitialPosition (step seekBy ev s) \<longrightarrow>
           ready (step seekBy ev s) \<and>
           filter initialWrite (calls (step seekBy ev s)) =
             [SetCurrentTime InitialPosition (startOffset (props (step seekBy ev s)))])"
  proof cases
    case set
    then show ?thesis
      using commit_settled[of ?h] hl hc assms
      by (simp add: step_def settled_def)
  next
    case fire
    have "\<not> ready s" using fire(1) assms by (auto simp add: settled_def)
    then have "deps_initialPosition ?h \<noteq> current_deps ?h"
      using ready_changed[of s ?h] fire(2) hp hd by simp
    then show ?thesis
      using commit_fires[of ?h] fire hl hc assms commit_frame[of ?h]
      by (simp add: step_def settled_def)
  next
    case wait
    then show ?thesis
      using commit_waits[of ?h] hl hc assms commit_frame[of ?h]
      by (simp add: step_def settled_def)
  qed
  then show "settled (step seekBy ev s)"
    and "hasSetInitialPosition s \<Longrightarrow> hasSetInitialPosition (step seekBy ev s) \<and>
           filter initialWrite (calls (step seekBy ev s)) = filter initialWrite (calls s)"
    and "\<not> hasSetInitialPosition s \<Longrightarrow> hasSetInitialPosition (step seekBy ev s) \<Longrightarrow>
           ready (step seekBy ev s) \<and>
           filter initialWrite (calls (step seekBy ev s)) =
             [SetCurrentTime InitialPosition (startOffset (props (step seekBy ev s)))]"
    by blast+
qed

lemma run_snoc: "run seekBy (evs @ [ev]) s = step seekBy ev (run seekBy evs s)"
  by (induction evs arbitrary: s) simp_all

lemma initial_settled: "settled (initial pr po w)"
  by (simp add: settled_def initial_def current_deps_def ready_def split: option.splits)

lemma autoPlay_effect_idle: "isLoading s \<Longrightarrow> autoPlay_effect s = s"
  by (simp add: autoPlay_effect_def split: option.splits)

lemma effects_settled:
  assumes "deps_initialPosition s = (startPosition (props s), duration s, isLoading s)"
    and "deps_autoPlay s = (autoPlay (props s), isLoading s)"
    and "deps_controls s = isPlaying s"
  shows "effects s = s"
proof -
  have "effects s = s\<lparr>deps_initialPosition := deps_initialPosition s,
                       deps_autoPlay := deps_autoPlay s, deps_controls := deps_controls s\<rparr>"
    unfolding effects_def Let_def by (simp only: assms refl if_False simp_thms)
  then show ?thesis by simp
qed

lemma initial_fields:
  "duration (initial pr po w) = 0"
  "isLoading (initial pr po w)"
  "\<not> isPlaying (initial pr po w)"
  "props (initial pr po w) = pr"
  "deps_initialPosition (initial pr po w) = (startPosition pr, 0, True)"
  "deps_autoPlay (initial pr po w) = (autoPlay pr, True)"
  "\<not> deps_controls (initial pr po w)"
  "\<not> hasSetInitialPosition (initial pr po w)"
  by (simp_all add: initial_def)

lemma mount_initial: "mount pr po w = initial pr po w"
proof -
  let ?i = "initial pr po w"
  have 1: "initialPosition_effect ?i = ?i"
    by (rule initialPosition_effect_idle) (simp add: ready_def initial_fields)
  have 2: "autoPlay_effect ?i = ?i"
    by (rule autoPlay_effect_idle) (simp add: initial_fields)
  have 3: "effects ?i = ?i"
    by (rule effects_settled) (simp_all add: initial_fields)
  show ?thesis
    unfolding mount_def Let_def commit_def by (simp only: 1 2 3 initial_fields if_False)
qed

text \<open>A third pass of the effects changes nothing: two passes are a whole commit.\<close>

lemma effects_deps:
  "deps_autoPlay (effects s) = (autoPlay (props s), isLoading s)"
  "deps_controls (effects s) = isPlaying s"
  unfolding effects_def Let_def by simp_all

lemma controls_effect_isPlaying: "isPlaying (controls_effect b s) = isPlaying s"
  by (simp add: controls_effect_def resetControlsTimeout_def Let_def)

lemma effects_isPlaying:
  assumes "deps_initialPosition s = current_deps s"
    and "deps_autoPlay s = (autoPlay (props s), isLoading s)"
  shows "isPlaying (effects s) = isPlaying s"
  using assms unfolding effects_def Let_def current_deps_def
  by (simp add: controls_effect_isPlaying)

lemma effects_stable: "effects (commit s) = commit s"
proof (rule effects_settled)
  let ?e = "effects s"
  show "deps_initialPosition (commit s) =
        (startPosition (props (commit s)), duration (commit s), isLoading (commit s))"
    using commit_frame(5)[of s] by (simp add: current_deps_def)
  show "deps_autoPlay (commit s) = (autoPlay (props (commit s)), isLoading (commit s))"
    by (simp add: commit_def effects_deps effects_frame)
  have "isPlaying (effects ?e) = isPlaying ?e"
    by (rule effects_isPlaying) (simp_all add: effects_frame effects_deps effects_current_deps)
  then show "deps_controls (commit s) = isPlaying (commit s)"
    by (simp add: commit_def effects_deps)
qed

lemma run_settled: "settled s \<Longrightarrow> settled (run seekBy evs s)"
  by (induction evs arbitrary: s) (simp_all add: step_cases(1))

section \<open>Ticks\<close>

lemma initialPosition_effect_filter:
  assumes "\<And>t. \<not> P (SetCurrentTime InitialPosition t)"
  shows "filter P (calls (initialPosition_effect s)) = filter P (calls s)"
  using assms by (simp add: initialPosition_effect_def split: option.splits)

lemma autoPlay_effect_filter:
  assumes "\<not> P Play"
  shows "filter P (calls (autoPlay_effect s)) = filter P (calls s)"
  using assms by (simp add: autoPlay_effect_def split: option.splits)

lemma effects_filter:
  assumes "\<not> P Play" and "\<And>t. \<not> P (SetCurrentTime InitialPosition t)"
  shows "filter P (calls (effects s)) = filter P (calls s)"
  unfolding effects_def Let_def
  by (simp add: initialPosition_effect_filter[of P, OF assms(2)] autoPlay_effect_filter[of P, OF assms(1)]
      controls_effect_frame)

lemma commit_filter:
  assumes "\<not> P Play" and "\<And>t. \<not> P (SetCurrentTime InitialPosition t)"
  shows "filter P (calls (commit s)) = filter P (calls s)"
  by (simp add: commit_def effects_filter[of P, OF assms])

lemma effect_player_duration:
  "map_option player_duration (player (initialPosition_effect s)) = map_option player_duration (player s)"
  "map_option player_duration (player (autoPlay_effect s)) = map_option player_duration (player s)"
  by (simp_all add: initialPosition_effect_def autoPlay_effect_def split: option.splits)

lemma autoPlay_effect_time:
  "map_option player_currentTime (player (autoPlay_effect s)) = map_option player_currentTime (player s)"
  by (simp add: autoPlay_effect_def split: option.splits)

lemma effects_player_duration:
  "map_option player_duration (player (effects s)) = map_option player_duration (player s)"
  unfolding effects_def Let_def
  by (simp add: effect_player_duration controls_effect_frame)

lemma effects_player_time:
  assumes "hasSetInitialPosition s"
  shows "map_option player_currentTime (player (effects s)) = map_option player_currentTime (player s)"
  using assms initialPosition_effect_idle[of s]
  unfolding effects_def Let_def
  by (simp add: autoPlay_effect_time controls_effect_frame)

lemma commit_player:
  "map_option player_duration (player (commit s)) = map_option player_duration (player s)"
  "hasSetInitialPosition s \<Longrightarrow>
     map_option player_currentTime (player (commit s)) = map_option player_currentTime (player s)"
  using effects_idle(1)[of s]
  by (simp_all add: commit_def effects_player_duration effects_player_time)

lemma updateProgress_player:
  "player (updateProgress s) = player s"
  "props (updateProgress s) = props s"
  by (simp_all add: updateProgress_def Let_def split: option.splits)

lemma updateProgress_videoEnd:
  assumes "player s = Some pl"
  shows "filter videoEndCall (calls (updateProgress s)) = filter videoEndCall (calls s) @
     (if onVideoEnd (props s) \<and> player_currentTime pl \<ge> player_duration pl \<and> player_duration pl > 0
      then [OnVideoEnd] else [])"
  using assms by (simp add: updateProgress_def Let_def videoEndCall_def)

lemma updateProgress_progress:
  assumes "player s = Some pl"
  shows "filter progressCall (calls (updateProgress s)) = filter progressCall (calls s) @
     (if onProgress (props s) \<and> player_duration pl > 0
      then [OnProgress (player_currentTime pl / player_duration pl) (player_currentTime pl)] else [])"
  using assms by (simp add: updateProgress_def Let_def progressCall_def)

lemma tick_step:
  assumes "player s = Some pl"
  shows "\<exists>pl'. player (step seekBy Tick s) = Some pl' \<and> player_duration pl' = player_duration pl \<and>
           (hasSetInitialPosition s \<longrightarrow> player_currentTime pl' = player_currentTime pl)"
    and "props (step seekBy Tick s) = props s"
    and "hasSetInitialPosition s \<Longrightarrow> hasSetInitialPosition (step seekBy Tick s)"
    and "filter videoEndCall (calls (step seekBy Tick s)) = filter videoEndCall (calls (updateProgress s))"
    and "filter progressCall (calls (step seekBy Tick s)) = filter progressCall (calls (updateProgress s))"
proof -
  let ?h = "updateProgress s"
  have hp: "player ?h = Some pl" using assms by (simp add: updateProgress_player)
  have hl: "hasSetInitialPosition ?h = hasSetInitialPosition s" by (simp add: updateProgress_frame)
  obtain pl' where pl': "player (commit ?h) = Some pl'"
    using commit_player(1)[of ?h] hp by (cases "player (commit ?h)") simp_all
  have "player_duration pl' = player_duration pl"
    using commit_player(1)[of ?h] hp pl' by simp
  moreover have "hasSetInitialPosition s \<longrightarrow> player_currentTime pl' = player_currentTime pl"
    using commit_player(2)[of ?h] hp pl' hl by simp
  ultimately show "\<exists>pl'. player (step seekBy Tick s) = Some pl' \<and> player_duration pl' = player_duration pl \<and>
           (hasSetInitialPosition s \<longrightarrow> player_currentTime pl' = player_currentTime pl)"
    using pl' by (simp add: step_def)
  show "props (step seekBy Tick s) = props s"
    by (simp add: step_def commit_frame updateProgress_player)
  show "hasSetInitialPosition s \<Longrightarrow> hasSetInitialPosition (step seekBy Tick s)"
    using commit_settled(1)[of ?h] hl by (simp add: step_def)
  show "filter videoEndCall (calls (step seekBy Tick s)) = filter videoEndCall (calls (updateProgress s))"
    by (simp add: step_def commit_filter videoEndCall_def)
  show "filter progressCall (calls (step seekBy Tick s)) = filter progressCall (calls (updateProgress s))"
    by (simp add: step_def commit_filter progressCall_def)
qed

lemma ticks_progress:
  assumes "player s = Some pl" and "onProgress (props s)" and "player_duration pl > 0"
  shows "length (filter progressCall (calls (run seekBy (replicate n Tick) s))) =
         length (filter progressCall (calls s)) + n"
  using assms
proof (induction n arbitrary: s pl)
  case 0
  then show ?case by simp
next
  case (Suc n)
  obtain pl' where pl': "player (step seekBy Tick s) = Some pl'" "player_duration pl' = player_duration pl"
    using tick_step(1)[OF Suc.prems(1), of seekBy] by blast
  have p: "onProgress (props (step seekBy Tick s))"
    using tick_step(2)[OF Suc.prems(1), of seekBy] Suc.prems(2) by simp
  have "length (filter progressCall (calls (step seekBy Tick s))) = length (filter progressCall (calls s)) + 1"
    using tick_step(5)[OF Suc.prems(1), of seekBy] updateProgress_progress[OF Suc.prems(1)] Suc.prems(2,3)
    by simp
  then show ?case
    using Suc.IH[OF pl'(1) p] pl'(2) Suc.prems(3) by simp
qed

lemma ticks_videoEnd:
  assumes "player s = Some pl" and "hasSetInitialPosition s" and "onVideoEnd (props s)"
    and "player_currentTime pl \<ge> player_duration pl" and "player_duration pl > 0"
  shows "length (filter videoEndCall (calls (run seekBy (replicate n Tick) s))) =
         length (filter videoEndCall (calls s)) + n"
  using assms
proof (induction n arbitrary: s pl)
  case 0
  then show ?case by simp
next
  case (Suc n)
  obtain pl' where pl': "player (step seekBy Tick s) = Some pl'" "player_duration pl' = player_duration pl"
    "player_currentTime pl' = player_currentTime pl"
    using tick_step(1)[OF Suc.prems(1), of seekBy] Suc.prems(2) by blast
  have p: "onVideoEnd (props (step seekBy Tick s))"
    using tick_step(2)[OF Suc.prems(1), of seekBy] Suc.prems(3) by simp
  have l: "hasSetInitialPosition (step seekBy Tick s)"
    using tick_step(3)[OF Suc.prems(1) Suc.prems(2)] .
  have "length (filter videoEndCall (calls (step seekBy Tick s))) = length (filter videoEndCall (calls s)) + 1"
    using tick_step(4)[OF Suc.prems(1), of seekBy] updateProgress_videoEnd[OF Suc.prems(1)] Suc.prems(3,4,5)
    by simp
  then show ?case
    using Suc.IH[OF pl'(1) l p] pl'(2,3) Suc.prems(4,5) by simp
qed

section \<open>The assignment of the initial position\<close>

lemma initialPosition_effect_time:
  assumes "ready s" and "\<not> hasSetInitialPosition s"
  shows "map_option player_currentTime (player (initialPosition_effect s)) =
         Some (startOffset (props s))"
  using assms
  by (auto simp add: initialPosition_effect_def ready_def startOffset_def split: option.splits)

lemma effects_fires_time:
  assumes "ready s" and "\<not> hasSetInitialPosition s" and "deps_initialPosition s \<noteq> current_deps s"
  shows "map_option player_currentTime (player (effects s)) = Some (startOffset (props s))"
proof -
  let ?s1 = "initialPosition_effect s"
  have t1: "map_option player_currentTime (player ?s1) = Some (startOffset (props s))"
    using initialPosition_effect_time[OF assms(1,2)] .
  have t2: "map_option player_currentTime (player (autoPlay_effect ?s1)) = Some (startOffset (props s))"
    using t1 by (simp only: autoPlay_effect_time)
  have "player (effects s) = player ?s1 \<or> player (effects s) = player (autoPlay_effect ?s1)"
    using assms(3) unfolding effects_def Let_def current_deps_def
    by (simp add: controls_effect_frame)
  then show ?thesis
    using t1 t2 by (elim disjE) simp_all
qed

lemma commit_fires_time:
  assumes "\<not> hasSetInitialPosition h" and "ready h" and "deps_initialPosition h \<noteq> current_deps h"
  shows "map_option player_currentTime (player (commit h)) = Some (startOffset (props h))"
proof -
  have "hasSetInitialPosition (effects h)"
    using assms effects_fires(1)[of h] by simp
  then have "map_option player_currentTime (player (commit h)) =
             map_option player_currentTime (player (effects h))"
    using effects_player_time[of "effects h"] by (simp add: commit_def)
  then show ?thesis
    using effects_fires_time[OF assms(2) assms(1) assms(3)] by simp
qed

lemma step_fires_time:
  assumes "settled s" and "\<not> hasSetInitialPosition s"
    and "hasSetInitialPosition (step seekBy ev s)"
  shows "map_option player_currentTime (player (step seekBy ev s)) =
         Some (startOffset (props (step seekBy ev s)))"
proof -
  let ?h = "handle seekBy ev s"
  have hl: "\<not> hasSetInitialPosition ?h" using assms(2) by (simp add: handle_frame)
  have hd: "deps_initialPosition ?h = current_deps s"
    using assms(1) by (simp add: handle_frame settled_def)
  have hp: "(player ?h = None) = (player s = None)" by (simp add: handle_frame)
  have r: "ready ?h"
  proof (rule ccontr)
    assume "\<not> ready ?h"
    then have "\<not> hasSetInitialPosition (commit ?h)" using commit_waits(1)[OF hl] by simp
    then show False using assms(3) by (simp add: step_def)
  qed
  have "\<not> ready s" using assms(1,2) by (auto simp add: settled_def)
  then have "deps_initialPosition ?h \<noteq> current_deps ?h"
    using ready_changed[of s ?h] r hp hd by simp
  then show ?thesis
    using commit_fires_time[OF hl r] by (simp add: step_def commit_frame)
qed

lemma run_history:
  assumes "settled s0" "\<not> hasSetInitialPosition s0"
  shows "hasSetInitialPosition (run seekBy evs s0) \<Longrightarrow>
     \<exists>n<length evs.
       filter initialWrite (calls (run seekBy (take n evs) s0)) = [] \<and>
       ready (run seekBy (take (Suc n) evs) s0) \<and>
       map_option player_currentTime (player (run seekBy (take (Suc n) evs) s0)) =
         Some (startOffset (props (run seekBy (take (Suc n) evs) s0))) \<and>
       filter initialWrite (calls (run seekBy evs s0)) =
         [SetCurrentTime InitialPosition (startOffset (props (run seekBy (take (Suc n) evs) s0)))]"
proof (induction evs rule: rev_induct)
  case Nil
  then show ?case using assms by simp
next
  case (snoc ev evs)
  let ?s = "run seekBy evs s0"
  have i: "settled ?s" using assms(1) by (rule run_settled)
  show ?case
  proof (cases "hasSetInitialPosition ?s")
    case True
    then obtain n where n: "n < length evs"
      "filter initialWrite (calls (run seekBy (take n evs) s0)) = []"
      "ready (run seekBy (take (Suc n) evs) s0)"
      "map_option player_currentTime (player (run seekBy (take (Suc n) evs) s0)) =
         Some (startOffset (props (run seekBy (take (Suc n) evs) s0)))"
      "filter initialWrite (calls ?s) =
         [SetCurrentTime InitialPosition (startOffset (props (run seekBy (take (Suc n) evs) s0)))]"
      using snoc.IH by blast
    have "filter initialWrite (calls (run seekBy (evs @ [ev]) s0)) = filter initialWrite (calls ?s)"
      using step_cases(2)[OF i True] by (simp add: run_snoc)
    then show ?thesis
      using n by (intro exI[of _ n]) simp
  next
    case False
    have l: "hasSetInitialPosition (step seekBy ev ?s)"
      using snoc.prems by (simp add: run_snoc)
    have "filter initialWrite (calls ?s) = []"
      using i False by (simp add: settled_def)
    moreover have "ready (run seekBy (evs @ [ev]) s0) \<and>
       filter initialWrite (calls (run seekBy (evs @ [ev]) s0)) =
         [SetCurrentTime InitialPosition (startOffset (props (run seekBy (evs @ [ev]) s0)))]"
      using step_cases(3)[OF i False, of seekBy ev] snoc.prems by (simp add: run_snoc)
    moreover have "map_option player_currentTime (player (run seekBy (evs @ [ev]) s0)) =
         Some (startOffset (props (run seekBy (evs @ [ev]) s0)))"
      using step_fires_time[OF i False l] by (simp add: run_snoc)
    ultimately show ?thesis
      by (intro exI[of _ "length evs"]) simp
  qed
qed

section \<open>Seeking\<close>

lemma seekToPosition_currentTime:
  assumes "player s = Some pl" and "dur > 0"
  shows "currentTime (seekToPosition seekBy dur p s) = max 0 (min p 1) * dur"
  using assms by (simp add: seekToPosition_def Let_def split: sum.splits)

lemma seekToPosition_duration: "duration (seekToPosition seekBy dur p s) = duration s"
  by (simp add: seekToPosition_def Let_def split: option.splits sum.splits)

lemma resetControlsTimeout_view:
  "currentTime (resetControlsTimeout b s) = currentTime s"
  "duration (resetControlsTimeout b s) = duration s"
  by (simp_all add: resetControlsTimeout_def Let_def)

lemma bar_position_bounds:
  assumes "(bw::real) > 0"
  shows "0 \<le> max 0 (min x bw) / bw" and "max 0 (min x bw) / bw \<le> 1"
  using assms by (simp_all add: divide_le_eq_1)

section \<open>The claims\<close>

text \<open>
  C1 fails on the code. The tick (lines 94-99) tests \<open>currentTime \<ge> duration\<close> anew each
  time and nothing remembers that \<open>onVideoEnd\<close> has been called. The session has reached
  the end of the medium: the engine reports \<open>currentTime = duration = 120\<close> and keeps
  reporting it. Two ticks follow. The player does not change between them, so the
  threshold is crossed once, and \<open>onVideoEnd\<close> has been called once after the first tick
  and twice after the second.
\<close>

theorem onVideoEnd_refired:
  "player (step seekBy_returns Tick demo_ended) = player demo_ended \<and>
   player (step seekBy_returns Tick (step seekBy_returns Tick demo_ended)) = player demo_ended \<and>
   map_option player_currentTime (player demo_ended) = Some 120 \<and>
   map_option player_duration (player demo_ended) = Some 120 \<and>
   length (filter videoEndCall (calls demo_ended)) = 0 \<and>
   length (filter videoEndCall (calls (step seekBy_returns Tick demo_ended))) = 1 \<and>
   length (filter videoEndCall (calls (step seekBy_returns Tick (step seekBy_returns Tick demo_ended)))) = 2"
  by code_simp

text \<open>
  C2. A seek whose target \<open>clamp(p, 0, 1) * duration\<close> is less than 0.1 seconds away from
  \<open>player.currentTime\<close> (with a player and \<open>duration > 0\<close>) issues no command: the call
  list and the player are unchanged, so there is neither a \<open>seekBy\<close> nor an assignment
  to \<open>currentTime\<close>; the displayed time becomes the target.
\<close>

theorem seek_below_threshold:
  assumes "player s = Some pl" and "duration s > 0"
    and "\<bar>max 0 (min p 1) * duration s - player_currentTime pl\<bar> < 1/10"
  shows "calls (seekToPosition seekBy (duration s) p s) = calls s \<and>
         player (seekToPosition seekBy (duration s) p s) = player s \<and>
         currentTime (seekToPosition seekBy (duration s) p s) = max 0 (min p 1) * duration s"
  using assms by (simp add: seekToPosition_def Let_def)

text \<open>C2 in the session: the player is at second 30, the seek asks for second 30.06.\<close>

theorem seek_below_threshold_witness:
  "player demo_ready = Some (demo_player 30 120 True) \<and> duration demo_ready = 120 \<and>
   \<bar>max 0 (min (501/2000) 1) * duration demo_ready - player_currentTime (demo_player 30 120 True)\<bar> < 1/10 \<and>
   calls (seekToPosition seekBy_returns (duration demo_ready) (501/2000) demo_ready) = calls demo_ready \<and>
   player (seekToPosition seekBy_returns (duration demo_ready) (501/2000) demo_ready) = player demo_ready \<and>
   currentTime (seekToPosition seekBy_returns (duration demo_ready) (501/2000) demo_ready) = 1503/50"
proof -
  have p: "player demo_ready = Some (demo_player 30 120 True)" by code_simp
  have d: "duration demo_ready = 120" by code_simp
  have c: "\<bar>max 0 (min (501/2000) 1) * duration demo_ready - player_currentTime (demo_player 30 120 True)\<bar> < 1/10"
    by (simp add: d demo_player_def)
  have d0: "duration demo_ready > 0" by (simp add: d)
  show ?thesis
    using seek_below_threshold[OF p d0 c, of seekBy_returns] p d c by simp
qed

text \<open>
  C3. After \<open>seekToPosition(p)\<close> with a player and \<open>duration > 0\<close>, the displayed progress
  (line 63: \<open>currentTime / duration\<close>) is \<open>clamp(p, 0, 1)\<close>, whatever the engine does with
  the seek; it lies in \<open>[0, 1]\<close> also for \<open>p\<close> outside that interval.
\<close>

theorem seek_displayed_progress:
  assumes "player s = Some pl" and "duration s > 0"
  shows "progress (seekToPosition seekBy (duration s) p s) = max 0 (min p 1) \<and>
         0 \<le> progress (seekToPosition seekBy (duration s) p s) \<and>
         progress (seekToPosition seekBy (duration s) p s) \<le> 1"
  using assms seekToPosition_currentTime[OF assms, of seekBy p]
  by (simp add: progress_def seekToPosition_duration)

text \<open>C3 in the session, for a position above 1, one below 0 and one inside.\<close>

theorem seek_displayed_progress_witness:
  "player demo_ready = Some (demo_player 30 120 True) \<and> duration demo_ready > 0 \<and>
   progress (seekToPosition seekBy_returns (duration demo_ready) (3/2) demo_ready) = 1 \<and>
   progress (seekToPosition seekBy_throws (duration demo_ready) (-2) demo_ready) = 0 \<and>
   progress (seekToPosition seekBy_returns (duration demo_ready) (2/5) demo_ready) = 2/5"
proof -
  have p: "player demo_ready = Some (demo_player 30 120 True)" by code_simp
  have d: "duration demo_ready > 0" by code_simp
  show ?thesis
    using seek_displayed_progress[OF p d, of seekBy_returns "3/2"]
      seek_displayed_progress[OF p d, of seekBy_throws "-2"]
      seek_displayed_progress[OF p d, of seekBy_returns "2/5"] p d by simp
qed

text \<open>
  C4. A seek whose distance \<open>delta\<close> to the target is at least 0.1 seconds in absolute
  value calls \<open>seekBy(delta)\<close>. If the call throws, \<open>seekToPosition\<close> still returns
  normally: it has then assigned the target to \<open>player.currentTime\<close>, and the call list
  has grown by the \<open>seekBy\<close> and that assignment. If the call returns, only the \<open>seekBy\<close>
  was issued. In both cases the displayed time is the target.
\<close>

theorem seekBy_failure_falls_back:
  assumes "player s = Some pl" and "duration s > 0"
    and "target = max 0 (min p 1) * duration s"
    and "delta = target - player_currentTime pl"
    and "\<bar>delta\<bar> \<ge> 1/10"
  shows "seekToPosition seekBy (duration s) p s =
           (case seekBy delta pl of
              Inl pl' \<Rightarrow> s\<lparr>player := Some (pl'\<lparr>player_currentTime := target\<rparr>),
                           calls := calls s @ [SeekBy delta, SetCurrentTime SeekFallback target],
                           currentTime := target\<rparr>
            | Inr pl' \<Rightarrow> s\<lparr>player := Some pl',
                           calls := calls s @ [SeekBy delta],
                           currentTime := target\<rparr>) \<and>
         currentTime (seekToPosition seekBy (duration s) p s) = target"
  using assms by (simp add: seekToPosition_def Let_def split: sum.splits)

text \<open>C4 in the session with an engine whose \<open>seekBy\<close> throws: a seek from second 30 to the middle.\<close>

theorem seekBy_failure_falls_back_witness:
  "player demo_ready = Some (demo_player 30 120 True) \<and> duration demo_ready = 120 \<and>
   seekBy_throws 30 (demo_player 30 120 True) = Inl (demo_player 30 120 True) \<and>
   seekToPosition seekBy_throws (duration demo_ready) (1/2) demo_ready =
     demo_ready\<lparr>player := Some (demo_player 60 120 True),
                 calls := calls demo_ready @ [SeekBy 30, SetCurrentTime SeekFallback 60],
                 currentTime := 60\<rparr> \<and>
   currentTime (seekToPosition seekBy_throws (duration demo_ready) (1/2) demo_ready) = 60"
proof -
  have p: "player demo_ready = Some (demo_player 30 120 True)" by code_simp
  have d: "duration demo_ready = 120" by code_simp
  have d0: "duration demo_ready > 0" by (simp add: d)
  have t: "(60::real) = max 0 (min (1/2) 1) * duration demo_ready" by (simp add: d)
  have e: "(30::real) = 60 - player_currentTime (demo_player 30 120 True)" by (simp add: demo_player_def)
  have a: "\<bar>30::real\<bar> \<ge> 1/10" by simp
  have f: "seekBy_throws 30 (demo_player 30 120 True) = Inl (demo_player 30 120 True)"
    by (simp add: seekBy_throws_def)
  have g: "(demo_player 30 120 True)\<lparr>player_currentTime := 60\<rparr> = demo_player 60 120 True"
    by (simp add: demo_player_def)
  show ?thesis
    using seekBy_failure_falls_back[OF p d0 t e a, of seekBy_throws] p d f g by simp
qed

text \<open>
  C5. Per mount, the initial-position effect assigns \<open>player.currentTime\<close> at most once,
  and once exactly as soon as the component is ready. For every engine, every props,
  every player and every sequence of events after mounting: the call list holds one
  initial-position assignment if the latch \<open>hasSetInitialPosition\<close> is set and none
  otherwise; the latch is set whenever a player exists, \<open>duration > 0\<close> and the
  component is not loading; and if the latch is set, there is one event of the
  sequence before which no such assignment had been made and after which the component
  was ready (\<open>duration > 0\<close>, not loading) and \<open>player.currentTime\<close> was the start offset:
  \<open>startPosition\<close> of that moment if positive and 0 otherwise, which is also the value
  the call list records. Ticks and state changes after it add none.
\<close>

theorem initial_position_once:
  "(let s = run seekBy evs (mount pr po w) in
     length (filter initialWrite (calls s)) = (if hasSetInitialPosition s then 1 else 0) \<and>
     (player s \<noteq> None \<and> duration s > 0 \<and> \<not> isLoading s \<longrightarrow> hasSetInitialPosition s) \<and>
     (hasSetInitialPosition s \<longrightarrow>
        (\<exists>n<length evs.
           let before = run seekBy (take n evs) (mount pr po w);
               after = run seekBy (take (Suc n) evs) (mount pr po w)
           in filter initialWrite (calls before) = [] \<and>
              player after \<noteq> None \<and> duration after > 0 \<and> \<not> isLoading after \<and>
              map_option player_currentTime (player after) =
                Some (if startPosition (props after) > 0 then startPosition (props after) else 0) \<and>
              filter initialWrite (calls s) =
                [SetCurrentTime InitialPosition
                   (if startPosition (props after) > 0 then startPosition (props after) else 0)])))"
proof -
  let ?m = "mount pr po w"
  let ?s = "run seekBy evs ?m"
  have i0: "settled ?m" by (simp add: mount_initial initial_settled)
  have l0: "\<not> hasSetInitialPosition ?m" by (simp add: mount_initial initial_def)
  have i: "settled ?s" using i0 by (rule run_settled)
  have a: "length (filter initialWrite (calls ?s)) = (if hasSetInitialPosition ?s then 1 else 0)"
    using i unfolding settled_def by blast
  have b: "player ?s \<noteq> None \<and> duration ?s > 0 \<and> \<not> isLoading ?s \<longrightarrow> hasSetInitialPosition ?s"
    using i unfolding settled_def ready_def by blast
  have c: "hasSetInitialPosition ?s \<longrightarrow>
        (\<exists>n<length evs.
           filter initialWrite (calls (run seekBy (take n evs) ?m)) = [] \<and>
           player (run seekBy (take (Suc n) evs) ?m) \<noteq> None \<and>
           duration (run seekBy (take (Suc n) evs) ?m) > 0 \<and>
           \<not> isLoading (run seekBy (take (Suc n) evs) ?m) \<and>
           map_option player_currentTime (player (run seekBy (take (Suc n) evs) ?m)) =
             Some (if startPosition (props (run seekBy (take (Suc n) evs) ?m)) > 0
                   then startPosition (props (run seekBy (take (Suc n) evs) ?m)) else 0) \<and>
           filter initialWrite (calls ?s) =
             [SetCurrentTime InitialPosition
                (if startPosition (props (run seekBy (take (Suc n) evs) ?m)) > 0
                 then startPosition (props (run seekBy (take (Suc n) evs) ?m)) else 0)])"
  proof
    assume "hasSetInitialPosition ?s"
    then obtain n where n: "n < length evs"
      "filter initialWrite (calls (run seekBy (take n evs) ?m)) = []"
      "ready (run seekBy (take (Suc n) evs) ?m)"
      "map_option player_currentTime (player (run seekBy (take (Suc n) evs) ?m)) =
         Some (startOffset (props (run seekBy (take (Suc n) evs) ?m)))"
      "filter initialWrite (calls ?s) =
         [SetCurrentTime InitialPosition (startOffset (props (run seekBy (take (Suc n) evs) ?m)))]"
      using run_history[OF i0 l0, of seekBy evs] by blast
    show "\<exists>n<length evs.
           filter initialWrite (calls (run seekBy (take n evs) ?m)) = [] \<and>
           player (run seekBy (take (Suc n) evs) ?m) \<noteq> None \<and>
           duration (run seekBy (take (Suc n) evs) ?m) > 0 \<and>
           \<not> isLoading (run seekBy (take (Suc n) evs) ?m) \<and>
           map_option player_currentTime (player (run seekBy (take (Suc n) evs) ?m)) =
             Some (if startPosition (props (run seekBy (take (Suc n) evs) ?m)) > 0
                   then startPosition (props (run seekBy (take (Suc n) evs) ?m)) else 0) \<and>
           filter initialWrite (calls ?s) =
             [SetCurrentTime InitialPosition
                (if startPosition (props (run seekBy (take (Suc n) evs) ?m)) > 0
                 then startPosition (props (run seekBy (take (Suc n) evs) ?m)) else 0)]"
      using n unfolding ready_def startOffset_def by (intro exI[of _ n]) simp
  qed
  show ?thesis
    unfolding Let_def by (intro conjI a b c)
qed

text \<open>
  C5 in the session (duration 120, \<open>startPosition = 30\<close>): after loading and two ticks the
  call list holds the one assignment of 30, made by an event after which the player
  stood at second 30.
\<close>

theorem initial_position_once_witness:
  "hasSetInitialPosition (run seekBy_returns demo_events demo_mount) \<and>
   player (run seekBy_returns demo_events demo_mount) \<noteq> None \<and>
   duration (run seekBy_returns demo_events demo_mount) = 120 \<and>
   \<not> isLoading (run seekBy_returns demo_events demo_mount) \<and>
   filter initialWrite (calls (run seekBy_returns demo_events demo_mount)) =
     [SetCurrentTime InitialPosition 30] \<and>
   length (filter initialWrite (calls (run seekBy_returns demo_events demo_mount))) = 1 \<and>
   (\<exists>n<length demo_events.
      filter initialWrite (calls (run seekBy_returns (take n demo_events) demo_mount)) = [] \<and>
      duration (run seekBy_returns (take (Suc n) demo_events) demo_mount) > 0 \<and>
      \<not> isLoading (run seekBy_returns (take (Suc n) demo_events) demo_mount) \<and>
      map_option player_currentTime
        (player (run seekBy_returns (take (Suc n) demo_events) demo_mount)) = Some 30)"
proof -
  let ?s = "run seekBy_returns demo_events demo_mount"
  have h: "hasSetInitialPosition ?s" by code_simp
  have r: "player ?s \<noteq> None" "duration ?s = 120" "\<not> isLoading ?s" by code_simp+
  have w: "filter initialWrite (calls ?s) = [SetCurrentTime InitialPosition 30]" by code_simp
  have t: "length (filter initialWrite (calls ?s)) = 1 \<and>
   (\<exists>n<length demo_events.
      filter initialWrite (calls (run seekBy_returns (take n demo_events) demo_mount)) = [] \<and>
      duration (run seekBy_returns (take (Suc n) demo_events) demo_mount) > 0 \<and>
      \<not> isLoading (run seekBy_returns (take (Suc n) demo_events) demo_mount) \<and>
      map_option player_currentTime
        (player (run seekBy_returns (take (Suc n) demo_events) demo_mount)) = Some 30)"
    using initial_position_once[of seekBy_returns demo_events demo_props "Some (demo_player 0 0 False)" 400] h w
    unfolding Let_def demo_mount_def[symmetric] by auto
  show ?thesis using h r w t by blast
qed

text \<open>
  C6 fails on the code. The auto-play effect (lines 78-83) has no latch; it runs
  whenever \<open>isLoading\<close> changes. In the session \<open>play()\<close> has been called once when loading
  completes. When the engine then reports \<open>loading\<close> and \<open>readyToPlay\<close> again, \<open>play()\<close> is
  called a second time.
\<close>

theorem autoPlay_plays_again:
  "autoPlay (props demo_mount) \<and>
   length (filter playCall (calls (run seekBy_returns demo_loading demo_mount))) = 1 \<and>
   length (filter playCall (calls (run seekBy_returns demo_rebuffer demo_mount))) = 2"
  by code_simp

text \<open>
  C7. On a tick with a player, with \<open>onProgress\<close> passed and \<open>player.duration > 0\<close>, the
  callback is called with \<open>(currentTime / duration, currentTime)\<close> of the player; it is
  the last call of the tick. It is called on every such tick, whether or not the values
  changed: \<open>n\<close> consecutive ticks call it \<open>n\<close> times.
\<close>

theorem onProgress_every_tick:
  assumes "player s = Some pl" and "onProgress (props s)" and "player_duration pl > 0"
  shows "filter progressCall (calls (handle seekBy Tick s)) = filter progressCall (calls s) @
           [OnProgress (player_currentTime pl / player_duration pl) (player_currentTime pl)] \<and>
         last (calls (handle seekBy Tick s)) =
           OnProgress (player_currentTime pl / player_duration pl) (player_currentTime pl) \<and>
         length (filter progressCall (calls (run seekBy (replicate n Tick) s))) =
           length (filter progressCall (calls s)) + n"
proof -
  have "last (calls (updateProgress s)) =
           OnProgress (player_currentTime pl / player_duration pl) (player_currentTime pl)"
    using assms by (simp add: updateProgress_def Let_def)
  then show ?thesis
    using updateProgress_progress[OF assms(1)] ticks_progress[OF assms, of seekBy n] assms(2,3) by simp
qed

text \<open>C7 in the session: at second 30 of 120 a tick reports \<open>(1/4, 30)\<close>; three ticks report three times.\<close>

theorem onProgress_every_tick_witness:
  "player demo_ready = Some (demo_player 30 120 True) \<and> onProgress (props demo_ready) \<and>
   filter progressCall (calls (handle seekBy_returns Tick demo_ready)) =
     filter progressCall (calls demo_ready) @ [OnProgress (1/4) 30] \<and>
   last (calls (handle seekBy_returns Tick demo_ready)) = OnProgress (1/4) 30 \<and>
   length (filter progressCall (calls (run seekBy_returns (replicate 3 Tick) demo_ready))) =
     length (filter progressCall (calls demo_ready)) + 3"
proof -
  have p: "player demo_ready = Some (demo_player 30 120 True)" by code_simp
  have h: "onProgress (props demo_ready)" by code_simp
  have d: "player_duration (demo_player 30 120 True) > 0" by (simp add: demo_player_def)
  show ?thesis
    using onProgress_every_tick[OF p h d, of seekBy_returns 3] p h by (simp add: demo_player_def)
qed

text \<open>
  C8, as stated, fails outside fullscreen. The window was 400 wide when the module was
  loaded and is 800 wide now; the player is not fullscreen. A tap at \<open>x = 184\<close> seeks to
  position \<open>184 / (400 - 32) = 1/2\<close>, second 60, whereas the current viewport width gives
  \<open>184 / (800 - 32) = 23/96\<close>, second 28.75.
\<close>

theorem bar_width_ignores_current_window:
  "\<not> isFullscreen (props demo_rotated) \<and>
   SCREEN_WIDTH demo_rotated = 400 \<and> window_width demo_rotated = 800 \<and>
   handle seekBy_returns (TapProgressBar 184) demo_rotated =
     resetControlsTimeout (isPlaying demo_rotated)
       (seekToPosition seekBy_returns (duration demo_rotated) (1/2) demo_rotated) \<and>
   max 0 (min 184 (window_width demo_rotated - 32)) / (window_width demo_rotated - 32) = 23/96 \<and>
   currentTime (handle seekBy_returns (TapProgressBar 184) demo_rotated) = 60 \<and>
   currentTime (seekToPosition seekBy_returns (duration demo_rotated) (23/96) demo_rotated) = 115/4"
  by code_simp

text \<open>
  C8, amended. With a player and \<open>duration > 0\<close>, both bar handlers pass
  \<open>clamp(touchX, 0, barWidth) / barWidth\<close> to \<open>seekToPosition\<close>, where \<open>barWidth\<close> is the
  current window width minus 32 in fullscreen mode and \<open>SCREEN_WIDTH\<close>, the width read
  when the module was loaded, minus 32 otherwise. For a positive bar width the position
  lies in \<open>[0, 1]\<close> and the displayed time becomes position times duration.
\<close>

theorem touch_position:
  assumes "player s \<noteq> None" and "dur > 0"
    and "bw = (if fs then window_width s else SCREEN_WIDTH s) - 32" and "bw > 0"
  shows "handleProgressBarTouch seekBy fs dur x s =
           seekToPosition seekBy dur (max 0 (min x bw) / bw) s \<and>
         handleProgressBarTap seekBy fs dur pc x s =
           resetControlsTimeout pc (seekToPosition seekBy dur (max 0 (min x bw) / bw) s) \<and>
         0 \<le> max 0 (min x bw) / bw \<and> max 0 (min x bw) / bw \<le> 1 \<and>
         currentTime (handleProgressBarTouch seekBy fs dur x s) = max 0 (min x bw) / bw * dur \<and>
         currentTime (handleProgressBarTap seekBy fs dur pc x s) = max 0 (min x bw) / bw * dur"
proof -
  let ?q = "max 0 (min x bw) / bw"
  obtain pl where pl: "player s = Some pl" using assms(1) by blast
  have 1: "handleProgressBarTouch seekBy fs dur x s = seekToPosition seekBy dur ?q s"
    using pl assms(2,3) by (simp add: handleProgressBarTouch_def Let_def)
  have 2: "handleProgressBarTap seekBy fs dur pc x s =
           resetControlsTimeout pc (seekToPosition seekBy dur ?q s)"
    using pl assms(2,3) by (simp add: handleProgressBarTap_def Let_def)
  have 3: "0 \<le> ?q" "?q \<le> 1" using bar_position_bounds[OF assms(4)] by simp_all
  have 4: "currentTime (seekToPosition seekBy dur ?q s) = ?q * dur"
    using seekToPosition_currentTime[OF pl assms(2), of seekBy ?q] 3 by simp
  show ?thesis
    using 1 2 3 4 by (simp add: resetControlsTimeout_view)
qed

text \<open>C8, amended, for the tap at 184 in the widened window: the bar counts as 368 wide.\<close>

theorem touch_position_witness:
  "player demo_rotated \<noteq> None \<and> duration demo_rotated > 0 \<and>
   (368::real) = (if isFullscreen (props demo_rotated) then window_width demo_rotated
                  else SCREEN_WIDTH demo_rotated) - 32 \<and>
   handleProgressBarTap seekBy_returns (isFullscreen (props demo_rotated)) (duration demo_rotated)
       (isPlaying demo_rotated) 184 demo_rotated =
     resetControlsTimeout (isPlaying demo_rotated)
       (seekToPosition seekBy_returns (duration demo_rotated) (max 0 (min 184 368) / 368) demo_rotated) \<and>
   currentTime (handleProgressBarTap seekBy_returns (isFullscreen (props demo_rotated))
       (duration demo_rotated) (isPlaying demo_rotated) 184 demo_rotated) = 60"
proof -
  have p: "player demo_rotated \<noteq> None" by code_simp
  have d: "duration demo_rotated > 0" by code_simp
  have d': "duration demo_rotated = 120" by code_simp
  have b: "(368::real) = (if isFullscreen (props demo_rotated) then window_width demo_rotated
                  else SCREEN_WIDTH demo_rotated) - 32" by code_simp
  have b0: "(368::real) > 0" by simp
  note t = touch_position[where seekBy = seekBy_returns and x = 184 and pc = "isPlaying demo_rotated",
        OF p d b b0]
  have e: "handleProgressBarTap seekBy_returns (isFullscreen (props demo_rotated)) (duration demo_rotated)
       (isPlaying demo_rotated) 184 demo_rotated =
     resetControlsTimeout (isPlaying demo_rotated)
       (seekToPosition seekBy_returns (duration demo_rotated) (max 0 (min 184 368) / 368) demo_rotated)"
    using t by blast
  have "currentTime (handleProgressBarTap seekBy_returns (isFullscreen (props demo_rotated))
       (duration demo_rotated) (isPlaying demo_rotated) 184 demo_rotated) =
       max 0 (min 184 368) / 368 * duration demo_rotated"
    using t by blast
  then have c: "currentTime (handleProgressBarTap seekBy_returns (isFullscreen (props demo_rotated))
       (duration demo_rotated) (isPlaying demo_rotated) 184 demo_rotated) = 60"
    by (simp add: d')
  show ?thesis
    using p d b e c by blast
qed

text \<open>
  C9. With a player, \<open>changePlaybackRate(rate)\<close> sets \<open>player.playbackRate\<close> and the
  \<open>playbackRate\<close> state to \<open>rate\<close> and closes the settings menu. The menu lists exactly
  0.5, 0.75, 1, 1.25, 1.5 and 2, and selecting one of them is that call.
\<close>

theorem changeRate_applies:
  assumes "player s = Some pl"
  shows "map_option player_playbackRate (player (changePlaybackRate rate s)) = Some rate \<and>
         playbackRate (changePlaybackRate rate s) = rate \<and>
         \<not> showSettings (changePlaybackRate rate s) \<and>
         calls (changePlaybackRate rate s) = calls s @ [SetPlaybackRate rate] \<and>
         set playbackRates = {1/2, 3/4, 1, 5/4, 3/2, 2} \<and>
         (rate \<in> set playbackRates \<longrightarrow>
            handle seekBy (SelectRate rate) s = changePlaybackRate rate s)"
  using assms by (auto simp add: changePlaybackRate_def playbackRates_def)

text \<open>C9 in the session: the menu is opened and 1.5 is selected.\<close>

theorem changeRate_applies_witness:
  "player (step seekBy_returns PressSettings demo_ready) = Some (demo_player 30 120 True) \<and>
   showSettings (step seekBy_returns PressSettings demo_ready) \<and>
   (3/2) \<in> set playbackRates \<and>
   map_option player_playbackRate
     (player (handle seekBy_returns (SelectRate (3/2)) (step seekBy_returns PressSettings demo_ready))) =
     Some (3/2) \<and>
   playbackRate (handle seekBy_returns (SelectRate (3/2)) (step seekBy_returns PressSettings demo_ready)) = 3/2 \<and>
   \<not> showSettings (handle seekBy_returns (SelectRate (3/2)) (step seekBy_returns PressSettings demo_ready))"
proof -
  let ?s = "step seekBy_returns PressSettings demo_ready"
  have p: "player ?s = Some (demo_player 30 120 True)" by code_simp
  have o: "showSettings ?s" by code_simp
  have m: "(3/2) \<in> set playbackRates" by (simp add: playbackRates_def)
  show ?thesis
    using changeRate_applies[OF p, of "3/2" seekBy_returns] p o m by simp
qed



end
